theory Spec2Isabelle
  imports Main "HOL-Library.AList"
begin

section \<open>The relay server of \<open>server.js\<close>: connection registry and envelope router\<close>

text \<open>
  The server keeps one global \<open>Map\<close>, \<open>clients\<close>, from user ids to records
  \<open>{ ws, tailscaleIp, pingInterval }\<close>, and for every accepted socket a closure holding
  \<open>userId\<close> and \<open>pingInterval\<close>. Four callbacks touch this state: the \<open>connection\<close>
  callback, and per socket the \<open>message\<close>, \<open>close\<close> and \<open>error\<close> callbacks, plus the
  interval callback that sends pings. Node runs each callback to completion, so a callback
  is a function from server state to server state, together with the exception that left
  it, if one did.
\<close>

subsection \<open>JavaScript values\<close>

text \<open>
  The values \<open>JSON.parse\<close> returns, and \<open>undefined\<close> for a property that is absent.
  A number is named by the text \<open>Number.prototype.toString\<close> gives it (\<open>''0''\<close> for both
  zeros): the server only compares numbers as \<open>Map\<close> keys, tests them for truthiness and
  writes them into template literals, and that text decides all three. An array or object
  carries the address of its allocation, since a \<open>Map\<close> compares objects by reference:
  two values of one address are the same object. The properties of an object are listed
  with the first binding of a name being the property's value.
\<close>

datatype jsval =
    JUndefined
  | JNull
  | JBool bool
  | JNum string
  | JStr string
  | JArr nat "jsval list"
  | JObj nat "(string \<times> jsval) list"

datatype js_error = SyntaxError string | TypeError string

fun error_message :: "js_error \<Rightarrow> string" where
  "error_message (SyntaxError m) = m"
| "error_message (TypeError m) = m"

text \<open>Truthiness, as \<open>if (v)\<close>, \<open>v && ...\<close> and \<open>v || ...\<close> test it.\<close>

fun truthy :: "jsval \<Rightarrow> bool" where
  "truthy JUndefined = False"
| "truthy JNull = False"
| "truthy (JBool b) = b"
| "truthy (JNum n) = (n \<noteq> ''0'' \<and> n \<noteq> ''NaN'')"
| "truthy (JStr s) = (s \<noteq> [])"
| "truthy (JArr a xs) = True"
| "truthy (JObj a fs) = True"

text \<open>
  Property access \<open>v.p\<close> for the names the server reads (\<open>type\<close>, \<open>userId\<close>,
  \<open>tailscaleIP\<close>, \<open>from\<close>, \<open>to\<close>, \<open>message\<close>, \<open>timestamp\<close>, \<open>data\<close>): none of them is
  inherited from a prototype, so on anything but an object with that property the result is
  \<open>undefined\<close>. On \<open>null\<close> and \<open>undefined\<close> the access throws a \<open>TypeError\<close>, here with
  the message V8 gives it.
\<close>

fun field :: "jsval \<Rightarrow> string \<Rightarrow> jsval" where
  "field (JObj a fs) p = (case map_of fs p of None \<Rightarrow> JUndefined | Some v \<Rightarrow> v)"
| "field v p = JUndefined"

definition get_prop :: "jsval \<Rightarrow> string \<Rightarrow> js_error + jsval" where
  "get_prop v p =
     (if v = JNull \<or> v = JUndefined
      then Inl (TypeError (''Cannot read properties of '' @ (if v = JNull then ''null'' else ''undefined'') @
                           '' (reading '' @ [CHR 0x27] @ p @ [CHR 0x27] @ '')''))
      else Inr (field v p))"

text \<open>
  \<open>ToString\<close>, which every \<open>${...}\<close> of a template literal applies. An array joins the
  texts of its elements with commas, \<open>null\<close> and \<open>undefined\<close> elements giving the empty
  text. An object parsed from JSON has the text \<open>[object Object]\<close>, unless it has a property
  of its own named \<open>toString\<close>: that property is no function, \<open>valueOf\<close> returns the object
  itself, and the conversion throws a \<open>TypeError\<close>.
\<close>

fun to_string :: "jsval \<Rightarrow> js_error + string"
  and join_elements :: "jsval list \<Rightarrow> js_error + string" where
  "to_string JUndefined = Inr ''undefined''"
| "to_string JNull = Inr ''null''"
| "to_string (JBool b) = Inr (if b then ''true'' else ''false'')"
| "to_string (JNum n) = Inr n"
| "to_string (JStr s) = Inr s"
| "to_string (JArr a xs) = join_elements xs"
| "to_string (JObj a fs) =
     (if ''toString'' \<in> set (map fst fs)
      then Inl (TypeError ''Cannot convert object to primitive value'')
      else Inr ''[object Object]'')"
| "join_elements [] = Inr ''''"
| "join_elements (x # xs) =
     (case (if x = JUndefined \<or> x = JNull then Inr '''' else to_string x) of
        Inl e \<Rightarrow> Inl e
      | Inr a \<Rightarrow>
          (if xs = [] then Inr a
           else case join_elements xs of Inl e \<Rightarrow> Inl e | Inr b \<Rightarrow> Inr (a @ '','' @ b)))"

subsection \<open>Server state\<close>

datatype ready_state = CONNECTING | OPEN | CLOSING | CLOSED

text \<open>
  A socket is named by a number. The interval that the \<open>connection\<close> callback of socket
  \<open>w\<close> creates is named \<open>w\<close> as well: the callback runs once per socket and calls
  \<open>setInterval\<close> once.
\<close>

record client =
  ws :: nat
  tailscaleIp :: jsval
  pingInterval :: nat

text \<open>
  Per socket: the closure variable \<open>userId\<close>, the socket's \<open>readyState\<close>, whether the
  interval created for it is still scheduled, and the objects handed to
  \<open>ws.send(JSON.stringify(...))\<close> on it, oldest first, each as its properties in the order
  the object literal writes them.
\<close>

record connection =
  userId :: jsval
  readyState :: ready_state
  pingRunning :: bool
  sent :: "(string \<times> jsval) list list"

text \<open>Every line the server writes to the console, with the texts interpolated into it.\<close>

datatype log_line =
    LogRawMessage string
  | LogParsedMessage jsval
  | LogDuplicate string
  | LogRegistered string string
  | LogConnectedUsers
  | LogConnectedUser string string ready_state
  | LogMessageReceived string string string
  | LogForwarded string
  | LogNotConnected string
  | LogRelayed string string string
  | LogCouldNotRelay string
  | LogInvalidJSON string
  | LogDisconnected string
  | LogSocketError string string

text \<open>
  \<open>clients\<close> is the \<open>Map\<close>, as the list of its entries in insertion order:
  \<open>clients.get(k)\<close> is \<open>map_of\<close>, \<open>clients.delete(k)\<close> is \<open>AList.delete k\<close>, and
  \<open>clients.set(k, v)\<close> is \<open>AList.update k v\<close>, which replaces the value of a key that is
  present and appends a key that is not.
\<close>

record server =
  clients :: "(jsval \<times> client) list"
  sockets :: "nat \<Rightarrow> connection"
  console :: "log_line list"

definition init :: server where
  "init = \<lparr>clients = [],
           sockets = (\<lambda>w. \<lparr>userId = JNull, readyState = CONNECTING, pingRunning = False, sent = []\<rparr>),
           console = []\<rparr>"

subsection \<open>Statements\<close>

text \<open>
  A statement runs on the state and either completes (\<open>None\<close>) or throws, and in both
  cases leaves a state behind: what was done before a \<open>throw\<close> stays done.
\<close>

type_synonym stmt = "server \<Rightarrow> js_error option \<times> server"

definition modify :: "(server \<Rightarrow> server) \<Rightarrow> stmt" where
  "modify f s = (None, f s)"

fun block :: "stmt list \<Rightarrow> stmt" where
  "block [] s = (None, s)"
| "block (f # fs) s = (case f s of (None, s') \<Rightarrow> block fs s' | (Some e, s') \<Rightarrow> (Some e, s'))"

definition try_catch :: "stmt \<Rightarrow> (js_error \<Rightarrow> stmt) \<Rightarrow> stmt" where
  "try_catch body handler s =
     (case body s of (None, s') \<Rightarrow> (None, s') | (Some e, s') \<Rightarrow> handler e s')"

definition console_log :: "log_line \<Rightarrow> stmt" where
  "console_log l = modify (\<lambda>s. s\<lparr>console := console s @ [l]\<rparr>)"

text \<open>A \<open>console.log\<close> of a template literal with one, two or three interpolations.\<close>

definition log1 :: "(string \<Rightarrow> log_line) \<Rightarrow> jsval \<Rightarrow> stmt" where
  "log1 l a s = (case to_string a of Inl e \<Rightarrow> (Some e, s) | Inr x \<Rightarrow> console_log (l x) s)"

definition log2 :: "(string \<Rightarrow> string \<Rightarrow> log_line) \<Rightarrow> jsval \<Rightarrow> jsval \<Rightarrow> stmt" where
  "log2 l a b s =
     (case to_string a of Inl e \<Rightarrow> (Some e, s)
      | Inr x \<Rightarrow> (case to_string b of Inl e \<Rightarrow> (Some e, s) | Inr y \<Rightarrow> console_log (l x y) s))"

definition log3 :: "(string \<Rightarrow> string \<Rightarrow> string \<Rightarrow> log_line) \<Rightarrow> jsval \<Rightarrow> jsval \<Rightarrow> jsval \<Rightarrow> stmt" where
  "log3 l a b c s =
     (case to_string a of Inl e \<Rightarrow> (Some e, s)
      | Inr x \<Rightarrow> (case to_string b of Inl e \<Rightarrow> (Some e, s)
      | Inr y \<Rightarrow> (case to_string c of Inl e \<Rightarrow> (Some e, s) | Inr z \<Rightarrow> console_log (l x y z) s)))"

text \<open>
  \<open>ws.send(JSON.stringify(obj))\<close> on socket \<open>w\<close>: the model records the object, with a
  property whose value is \<open>undefined\<close> still listed (\<open>JSON.stringify\<close> leaves it out of the
  text). On a socket the server has accepted the call does not throw; whether the transport
  still delivers the text is the library's business, and where the server forwards to
  another socket, or pings, it tests \<open>readyState\<close> itself before it sends.
\<close>

definition ws_send :: "nat \<Rightarrow> (string \<times> jsval) list \<Rightarrow> stmt" where
  "ws_send w obj =
     modify (\<lambda>s. s\<lparr>sockets := (sockets s)(w := (sockets s w)\<lparr>sent := sent (sockets s w) @ [obj]\<rparr>)\<rparr>)"

definition clearInterval :: "nat \<Rightarrow> stmt" where
  "clearInterval t =
     modify (\<lambda>s. s\<lparr>sockets := (sockets s)(t := (sockets s t)\<lparr>pingRunning := False\<rparr>)\<rparr>)"

text \<open>\<open>existingClient && existingClient.ws.readyState === WebSocket.OPEN\<close>\<close>

definition is_live :: "server \<Rightarrow> client option \<Rightarrow> bool" where
  "is_live s r = (case r of None \<Rightarrow> False | Some c \<Rightarrow> readyState (sockets s (ws c)) = OPEN)"

subsection \<open>\<open>logConnectedUsers\<close>\<close>

definition logConnectedUsers :: stmt where
  "logConnectedUsers s =
     block (console_log LogConnectedUsers #
            map (\<lambda>(uid, c) s'. log2 (\<lambda>u t. LogConnectedUser u t (readyState (sockets s' (ws c))))
                                  uid (tailscaleIp c) s')
                (clients s)) s"

subsection \<open>The callbacks of a socket\<close>

text \<open>The \<open>connection\<close> callback: \<open>let userId = null\<close> and \<open>setInterval\<close>.\<close>

definition on_connection :: "nat \<Rightarrow> stmt" where
  "on_connection w =
     modify (\<lambda>s. s\<lparr>sockets := (sockets s)(w := (sockets s w)\<lparr>userId := JNull, pingRunning := True\<rparr>)\<rparr>)"

text \<open>The interval callback of socket \<open>w\<close>.\<close>

definition ping :: "nat \<Rightarrow> stmt" where
  "ping w s =
     (if readyState (sockets s w) = OPEN then ws_send w [(''type'', JStr ''ping'')] s
      else (None, s))"

text \<open>The three branches of the \<open>message\<close> callback, each ending in \<open>return\<close>.\<close>

definition tailscaleIp_of :: "jsval \<Rightarrow> jsval" where
  "tailscaleIp_of data =
     (if truthy (field data ''tailscaleIP'') \<and> field data ''tailscaleIP'' \<noteq> JStr ''null''
      then field data ''tailscaleIP'' else JStr ''N/A'')"

definition already_registered :: "string \<Rightarrow> (string \<times> jsval) list" where
  "already_registered u =
     [(''type'', JStr ''error''),
      (''message'', JStr (''User '' @ [CHR 0x22] @ u @ [CHR 0x22] @ '' is already registered.''))]"

definition handle_register :: "nat \<Rightarrow> jsval \<Rightarrow> stmt" where
  "handle_register w data =
     block [
       modify (\<lambda>s. s\<lparr>sockets := (sockets s)(w := (sockets s w)\<lparr>userId := field data ''userId''\<rparr>)\<rparr>),
       (\<lambda>s. if is_live s (map_of (clients s) (field data ''userId''))
            then block [
                   log1 LogDuplicate (field data ''userId''),
                   (\<lambda>s. case to_string (field data ''userId'') of
                           Inl e \<Rightarrow> (Some e, s)
                         | Inr u \<Rightarrow> ws_send w (already_registered u) s)] s
            else block [
                   modify (\<lambda>s. s\<lparr>clients := AList.delete (field data ''userId'') (clients s)\<rparr>),
                   modify (\<lambda>s. s\<lparr>clients :=
                             AList.update (field data ''userId'')
                               \<lparr>ws = w, tailscaleIp = tailscaleIp_of data, pingInterval = w\<rparr>
                               (clients s)\<rparr>),
                   log2 LogRegistered (field data ''userId'') (tailscaleIp_of data),
                   logConnectedUsers,
                   ws_send w [(''type'', JStr ''registered''),
                              (''userId'', field data ''userId''),
                              (''tailscaleIp'', tailscaleIp_of data)]] s)]"

definition handle_message :: "jsval \<Rightarrow> stmt" where
  "handle_message data =
     block [
       log3 LogMessageReceived (field data ''from'') (field data ''to'') (field data ''message''),
       (\<lambda>s. case map_of (clients s) (field data ''to'') of
               None \<Rightarrow> log1 LogNotConnected (field data ''to'') s
             | Some recipient \<Rightarrow>
                 if readyState (sockets s (ws recipient)) = OPEN
                 then block [
                        ws_send (ws recipient)
                          [(''type'', JStr ''message''),
                           (''to'', field data ''to''),
                           (''from'', field data ''from''),
                           (''message'', field data ''message''),
                           (''timestamp'', field data ''timestamp'')],
                        log1 LogForwarded (field data ''to'')] s
                 else log1 LogNotConnected (field data ''to'') s)]"

definition handle_signal :: "jsval \<Rightarrow> stmt" where
  "handle_signal data s =
     (case map_of (clients s) (field data ''to'') of
        None \<Rightarrow> log1 LogCouldNotRelay (field data ''to'') s
      | Some recipient \<Rightarrow>
          if readyState (sockets s (ws recipient)) = OPEN
          then block [
                 ws_send (ws recipient)
                   [(''type'', JStr ''webrtc-signal''),
                    (''from'', field data ''from''),
                    (''to'', field data ''to''),
                    (''data'', field data ''data'')],
                 (\<lambda>s. case get_prop (field data ''data'') ''type'' of
                         Inl e \<Rightarrow> (Some e, s)
                       | Inr t \<Rightarrow> log3 LogRelayed t (field data ''from'') (field data ''to'') s)] s
          else log1 LogCouldNotRelay (field data ''to'') s)"

text \<open>
  The \<open>message\<close> callback. Its argument is the text received and what \<open>JSON.parse\<close> makes
  of it: the value, or the \<open>SyntaxError\<close> it throws. Everything after the first
  \<open>console.log\<close> is inside \<open>try\<close>; the \<open>catch\<close> logs the error's message.
\<close>

definition on_message :: "nat \<Rightarrow> string \<Rightarrow> js_error + jsval \<Rightarrow> stmt" where
  "on_message w raw parsed =
     block [
       console_log (LogRawMessage raw),
       try_catch
         (\<lambda>s. case parsed of
                 Inl e \<Rightarrow> (Some e, s)
               | Inr data \<Rightarrow>
                   block [
                     console_log (LogParsedMessage data),
                     (\<lambda>s. case get_prop data ''type'' of
                             Inl e \<Rightarrow> (Some e, s)
                           | Inr t \<Rightarrow>
                               if t = JStr ''register'' then handle_register w data s
                               else if t = JStr ''message'' then handle_message data s
                               else if t = JStr ''webrtc-signal'' then handle_signal data s
                               else (None, s))] s)
         (\<lambda>err. console_log (LogInvalidJSON (error_message err)))]"

text \<open>The \<open>close\<close> callback. Nothing in it is inside a \<open>try\<close>.\<close>

definition on_close :: "nat \<Rightarrow> stmt" where
  "on_close w =
     block [
       clearInterval w,
       (\<lambda>s. if truthy (userId (sockets s w))
            then block [
                   modify (\<lambda>s. s\<lparr>clients := AList.delete (userId (sockets s w)) (clients s)\<rparr>),
                   (\<lambda>s. log1 LogDisconnected (userId (sockets s w)) s),
                   logConnectedUsers] s
            else (None, s))]"

text \<open>The \<open>error\<close> callback: one \<open>console.error\<close>, of \<open>userId || 'unknown'\<close> and \<open>err.message\<close>.\<close>

definition on_error :: "nat \<Rightarrow> string \<Rightarrow> stmt" where
  "on_error w msg s =
     log1 (\<lambda>u. LogSocketError u msg)
       (if truthy (userId (sockets s w)) then userId (sockets s w) else JStr ''unknown'') s"

subsection \<open>Events\<close>

text \<open>
  What the transport does to the server: it accepts a socket, which is then open and has
  sent nothing, and calls the \<open>connection\<close> callback; it delivers a text; it lets a socket
  leave the open state (the library sets \<open>CLOSING\<close> when a close frame arrives or the
  connection breaks, before it emits \<open>close\<close>); it emits \<open>close\<close>, the socket then being
  \<open>CLOSED\<close>; it emits \<open>error\<close>; a scheduled interval fires. An exception that leaves a
  callback is uncaught and ends the process, so a run stops there.
\<close>

datatype event =
    Connection nat
  | Message nat string "js_error + jsval"
  | Closing nat
  | Close nat
  | Error nat string
  | Tick nat

definition set_readyState :: "nat \<Rightarrow> ready_state \<Rightarrow> stmt" where
  "set_readyState w r =
     modify (\<lambda>s. s\<lparr>sockets := (sockets s)(w := (sockets s w)\<lparr>readyState := r\<rparr>)\<rparr>)"

fun fire :: "event \<Rightarrow> stmt" where
  "fire (Connection w) =
     block [modify (\<lambda>s. s\<lparr>sockets := (sockets s)(w := (sockets s w)\<lparr>readyState := OPEN, sent := []\<rparr>)\<rparr>),
            on_connection w]"
| "fire (Message w raw parsed) = on_message w raw parsed"
| "fire (Closing w) = set_readyState w CLOSING"
| "fire (Close w) = block [set_readyState w CLOSED, on_close w]"
| "fire (Error w msg) = on_error w msg"
| "fire (Tick w) = (\<lambda>s. if pingRunning (sockets s w) then ping w s else (None, s))"

definition run :: "event list \<Rightarrow> stmt" where
  "run evs = block (map fire evs)"

text \<open>A \<open>register\<close> envelope as \<open>JSON.parse\<close> returns it, allocated at address \<open>a\<close>.\<close>

definition register_envelope :: "nat \<Rightarrow> jsval \<Rightarrow> jsval" where
  "register_envelope a uid = JObj a [(''type'', JStr ''register''), (''userId'', uid)]"

subsection \<open>Notions used in the statements\<close>

text \<open>
  A value is loggable when \<open>ToString\<close> returns on it, so that a template literal with the
  value in it evaluates. Every string, number, boolean, \<open>null\<close> and \<open>undefined\<close> is, and
  every object without a property of its own named \<open>toString\<close>.
\<close>

definition loggable :: "jsval \<Rightarrow> bool" where
  "loggable v = (case to_string v of Inl e \<Rightarrow> False | Inr x \<Rightarrow> True)"

definition text_of :: "jsval \<Rightarrow> string" where
  "text_of v = (case to_string v of Inl e \<Rightarrow> [] | Inr x \<Rightarrow> x)"

definition loggable_registry :: "(jsval \<times> client) list \<Rightarrow> bool" where
  "loggable_registry m = list_all (\<lambda>(k, c). loggable k \<and> loggable (tailscaleIp c)) m"

text \<open>
  A state in which every identity and address in \<open>clients\<close> and every \<open>userId\<close> is
  loggable, and an event that keeps it so: any event but a \<open>register\<close> envelope whose
  \<open>userId\<close> or address is not loggable.
\<close>

definition all_loggable :: "server \<Rightarrow> bool" where
  "all_loggable s = (loggable_registry (clients s) \<and> (\<forall>w. loggable (userId (sockets s w))))"

fun plain :: "event \<Rightarrow> bool" where
  "plain (Message w raw (Inr data)) =
     (field data ''type'' \<noteq> JStr ''register'' \<or>
      loggable (field data ''userId'') \<and> loggable (tailscaleIp_of data))"
| "plain e = True"

text \<open>The entries of \<open>clients\<close> under identity \<open>x\<close> whose socket is open.\<close>

definition live_records :: "server \<Rightarrow> jsval \<Rightarrow> (jsval \<times> client) list" where
  "live_records s x = filter (\<lambda>(k, c). k = x \<and> readyState (sockets s (ws c)) = OPEN) (clients s)"

text \<open>
  The object a \<open>message\<close> or \<open>webrtc-signal\<close> envelope is forwarded as: the same kind,
  with the envelope's own \<open>to\<close>, \<open>from\<close>, \<open>message\<close> and \<open>timestamp\<close>, or \<open>from\<close>,
  \<open>to\<close> and \<open>data\<close>.
\<close>

definition relayed :: "jsval \<Rightarrow> (string \<times> jsval) list" where
  "relayed data =
     (if field data ''type'' = JStr ''message''
      then [(''type'', JStr ''message''), (''to'', field data ''to''), (''from'', field data ''from''),
            (''message'', field data ''message''), (''timestamp'', field data ''timestamp'')]
      else [(''type'', JStr ''webrtc-signal''), (''from'', field data ''from''),
            (''to'', field data ''to''), (''data'', field data ''data'')])"

text \<open>The confirmation of a registration.\<close>

definition registered :: "jsval \<Rightarrow> (string \<times> jsval) list" where
  "registered data =
     [(''type'', JStr ''registered''), (''userId'', field data ''userId''),
      (''tailscaleIp'', tailscaleIp_of data)]"

text \<open>
  The sockets after one object has been sent to the socket that \<open>clients\<close> binds to
  \<open>to\<close>, if there is such a socket and it is open; the sockets as they are, otherwise.
\<close>

definition delivered :: "server \<Rightarrow> jsval \<Rightarrow> (string \<times> jsval) list \<Rightarrow> nat \<Rightarrow> connection" where
  "delivered s to obj =
     (case map_of (clients s) to of
        None \<Rightarrow> sockets s
      | Some c \<Rightarrow>
          if readyState (sockets s (ws c)) = OPEN
          then (sockets s)(ws c := (sockets s (ws c))\<lparr>sent := sent (sockets s (ws c)) @ [obj]\<rparr>)
          else sockets s)"

text \<open>The line \<open>logConnectedUsers\<close> writes for an entry.\<close>

definition connected_user :: "server \<Rightarrow> jsval \<times> client \<Rightarrow> log_line" where
  "connected_user s e =
     LogConnectedUser (text_of (fst e)) (text_of (tailscaleIp (snd e))) (readyState (sockets s (ws (snd e))))"

text \<open>
  Whether socket \<open>w\<close> is connected after a sequence of events, given whether it was before:
  it is from its \<open>connection\<close> callback until its \<open>close\<close> callback.
\<close>

fun open_after :: "event list \<Rightarrow> nat \<Rightarrow> bool \<Rightarrow> bool" where
  "open_after [] w b = b"
| "open_after (e # es) w b =
     open_after es w (if e = Connection w then True else if e = Close w then False else b)"

subsection \<open>Example states and envelopes\<close>

text \<open>
  A socket as the \<open>connection\<close> callback leaves it; a registry whose only entry is bound
  to a closed socket; a registry with two users on open sockets; a chat message and a
  call-setup envelope.
\<close>

definition opened :: connection where
  "opened = \<lparr>userId = JNull, readyState = OPEN, pingRunning = True, sent = []\<rparr>"

definition stale_alice :: server where
  "stale_alice =
     \<lparr>clients = [(JStr ''alice'', \<lparr>ws = 0, tailscaleIp = JStr ''100.64.0.1'', pingInterval = 0\<rparr>)],
      sockets = (\<lambda>w. opened)(0 := \<lparr>userId = JStr ''alice'', readyState = CLOSED,
                                      pingRunning = False, sent = []\<rparr>),
      console = []\<rparr>"

definition alice_and_bob :: server where
  "alice_and_bob =
     \<lparr>clients = [(JStr ''alice'', \<lparr>ws = 0, tailscaleIp = JStr ''N/A'', pingInterval = 0\<rparr>),
                 (JStr ''bob'', \<lparr>ws = 1, tailscaleIp = JStr ''N/A'', pingInterval = 1\<rparr>)],
      sockets = (\<lambda>w. opened)(0 := opened\<lparr>userId := JStr ''alice''\<rparr>,
                                1 := opened\<lparr>userId := JStr ''bob''\<rparr>),
      console = []\<rparr>"

definition hi_bob :: jsval where
  "hi_bob = JObj 200 [(''type'', JStr ''message''), (''from'', JStr ''alice''), (''to'', JStr ''bob''),
                      (''message'', JStr ''hi''), (''timestamp'', JNum ''1'')]"

definition offer_carol :: jsval where
  "offer_carol = JObj 201 [(''type'', JStr ''webrtc-signal''), (''from'', JStr ''alice''),
                           (''to'', JStr ''carol''), (''data'', JObj 202 [(''type'', JStr ''offer'')])]"

text \<open>A chat message and a call-setup envelope that carry an object with a property named
  \<open>toString\<close>.\<close>

definition odd_message :: jsval where
  "odd_message = JObj 200 [(''type'', JStr ''message''), (''from'', JStr ''alice''), (''to'', JStr ''bob''),
                           (''message'', JObj 201 [(''toString'', JNum ''1'')]), (''timestamp'', JNum ''1'')]"

definition odd_signal :: jsval where
  "odd_signal = JObj 202 [(''type'', JStr ''webrtc-signal''), (''from'', JStr ''alice''), (''to'', JStr ''bob''),
                          (''data'', JObj 203 [(''toString'', JNum ''1'')])]"

text \<open>A \<open>register\<close> envelope whose address is such an object, and a registry in which one
  socket holds two identities.\<close>

definition mallory :: jsval where
  "mallory = JObj 102 [(''type'', JStr ''register''), (''userId'', JStr ''mallory''),
                       (''tailscaleIP'', JObj 103 [(''toString'', JNum ''1'')])]"


subsection \<open>Keeping a property\<close>

text \<open>A statement keeps a property of the state when it holds afterwards if it held before,
  whether the statement completes or throws.\<close>

definition keeps :: "(server \<Rightarrow> bool) \<Rightarrow> stmt \<Rightarrow> bool" where
  "keeps I f = (\<forall>s. I s \<longrightarrow> I (snd (f s)))"

section \<open>Properties\<close>

subsection \<open>Statements that keep a property\<close>

lemmas stmt_defs = modify_def console_log_def ws_send_def clearInterval_def log1_def log2_def log3_def
  try_catch_def set_readyState_def

lemma loggable_to_string: "loggable v \<Longrightarrow> to_string v = Inr (text_of v)"
  by (simp add: loggable_def text_of_def split: sum.splits)

lemma get_prop_type: "field data p = JStr t \<Longrightarrow> get_prop data p = Inr (JStr t)"
  by (cases data) (simp_all add: get_prop_def)

lemma keepsI: "(\<And>s. I s \<Longrightarrow> I (snd (f s))) \<Longrightarrow> keeps I f"
  by (simp add: keeps_def)

lemma keepsD: "keeps I f \<Longrightarrow> I s \<Longrightarrow> I (snd (f s))"
  by (simp add: keeps_def)

lemma keeps_block: "(\<And>f. f \<in> set fs \<Longrightarrow> keeps I f) \<Longrightarrow> keeps I (block fs)"
proof (induction fs)
  case Nil
  show ?case by (simp add: keeps_def)
next
  case (Cons f fs)
  have f: "keeps I f" and rest: "keeps I (block fs)"
    using Cons by simp_all
  show ?case
  proof (rule keepsI)
    fix s assume "I s"
    then have "I (snd (f s))" using f by (rule keepsD[rotated])
    then show "I (snd (block (f # fs) s))"
      using rest by (cases "f s") (auto split: option.splits dest: keepsD)
  qed
qed

lemma keeps_try_catch: "keeps I body \<Longrightarrow> (\<And>e. keeps I (h e)) \<Longrightarrow> keeps I (try_catch body h)"
  unfolding keeps_def try_catch_def
  by (auto split: prod.splits option.splits)

lemma keeps_modify: "(\<And>s. I s \<Longrightarrow> I (f s)) \<Longrightarrow> keeps I (modify f)"
  by (simp add: keeps_def modify_def)

lemma keeps_Nil: "keeps I (block [])"
  by (simp add: keeps_def)

lemma keeps_Cons:
  assumes "keeps I f" and "keeps I (block fs)"
  shows "keeps I (block (f # fs))"
proof (rule keepsI)
  fix s assume "I s"
  note a = assms
  from \<open>I s\<close> a(1) have "I (snd (f s))" by (auto dest: keepsD)
  then show "I (snd (block (f # fs) s))"
    using a(2) by (cases "f s") (auto split: option.splits dest: keepsD)
qed

lemma keeps_if: "keeps I f \<Longrightarrow> keeps I g \<Longrightarrow> keeps I (\<lambda>s. if c s then f s else g s)"
  by (simp add: keeps_def)

lemma keeps_skip: "keeps I (\<lambda>s. (x, s))"
  by (simp add: keeps_def)

lemma keeps_case_sum:
  "(\<And>u. keeps I (g u)) \<Longrightarrow> keeps I (\<lambda>s. case x s of Inl e \<Rightarrow> (Some e, s) | Inr u \<Rightarrow> g u s)"
  by (simp add: keeps_def split: sum.splits)

lemma keeps_case_option:
  "keeps I f \<Longrightarrow> (\<And>r. keeps I (g r)) \<Longrightarrow>
   keeps I (\<lambda>s. case m s of None \<Rightarrow> f s | Some r \<Rightarrow> g r s)"
  by (simp add: keeps_def split: option.splits)

lemma keeps_console_log:
  "(\<And>s l. I s \<Longrightarrow> I (s\<lparr>console := l\<rparr>)) \<Longrightarrow> keeps I (console_log l)"
  by (simp add: console_log_def keeps_modify)

lemma keeps_log1:
  "(\<And>s l. I s \<Longrightarrow> I (s\<lparr>console := l\<rparr>)) \<Longrightarrow> keeps I (\<lambda>s. log1 l (a s) s)"
  by (simp add: keeps_def log1_def console_log_def modify_def split: sum.splits)

lemma keeps_log2:
  "(\<And>s l. I s \<Longrightarrow> I (s\<lparr>console := l\<rparr>)) \<Longrightarrow> keeps I (\<lambda>s. log2 (l s) (a s) (b s) s)"
  by (simp add: keeps_def log2_def console_log_def modify_def split: sum.splits)

lemma keeps_log3:
  "(\<And>s l. I s \<Longrightarrow> I (s\<lparr>console := l\<rparr>)) \<Longrightarrow> keeps I (\<lambda>s. log3 l (a s) (b s) (c s) s)"
  by (simp add: keeps_def log3_def console_log_def modify_def split: sum.splits)

lemma keeps_logConnectedUsers:
  assumes "\<And>s l. I s \<Longrightarrow> I (s\<lparr>console := l\<rparr>)"
  shows "keeps I logConnectedUsers"
proof (rule keepsI)
  fix s assume "I s"
  have "keeps I (block (console_log LogConnectedUsers #
            map (\<lambda>(uid, c) s'. log2 (\<lambda>u t. LogConnectedUser u t (readyState (sockets s' (ws c))))
                                  uid (tailscaleIp c) s')
                (clients s)))"
    by (rule keeps_block) (auto intro!: keeps_console_log keeps_log2 assms)
  with \<open>I s\<close> show "I (snd (logConnectedUsers s))"
    unfolding logConnectedUsers_def by (rule keepsD[rotated])
qed

lemmas keeps_intros = keeps_Nil keeps_Cons keeps_if keeps_skip keeps_case_sum keeps_case_option
  keeps_console_log keeps_log1 keeps_log2 keeps_log3 keeps_logConnectedUsers keeps_try_catch

lemma keeps_ws_send:
  "(\<And>s w x. I s \<Longrightarrow> I (s\<lparr>sockets := (sockets s)(w := (sockets s w)\<lparr>sent := x\<rparr>)\<rparr>)) \<Longrightarrow>
   keeps I (ws_send w obj)"
  by (simp add: ws_send_def keeps_modify)

lemma keeps_on_message:
  assumes c: "\<And>s l. I s \<Longrightarrow> I (s\<lparr>console := l\<rparr>)"
      and u: "\<And>s w x. I s \<Longrightarrow> I (s\<lparr>sockets := (sockets s)(w := (sockets s w)\<lparr>userId := x\<rparr>)\<rparr>)"
      and t: "\<And>s w x. I s \<Longrightarrow> I (s\<lparr>sockets := (sockets s)(w := (sockets s w)\<lparr>sent := x\<rparr>)\<rparr>)"
      and d: "\<And>s k. I s \<Longrightarrow> I (s\<lparr>clients := AList.delete k (clients s)\<rparr>)"
      and a: "\<And>s k w x. I s \<Longrightarrow>
                I (s\<lparr>clients := AList.update k \<lparr>ws = w, tailscaleIp = x, pingInterval = w\<rparr> (clients s)\<rparr>)"
  shows "keeps I (on_message w raw parsed)"
  unfolding on_message_def handle_register_def handle_message_def handle_signal_def
  by (intro keeps_intros keeps_ws_send keeps_modify c u t d a)

lemma keeps_on_close:
  assumes c: "\<And>s l. I s \<Longrightarrow> I (s\<lparr>console := l\<rparr>)"
      and p: "\<And>s. I s \<Longrightarrow> I (s\<lparr>sockets := (sockets s)(w := (sockets s w)\<lparr>pingRunning := False\<rparr>)\<rparr>)"
      and d: "\<And>s k. I s \<Longrightarrow> I (s\<lparr>clients := AList.delete k (clients s)\<rparr>)"
  shows "keeps I (on_close w)"
  unfolding on_close_def clearInterval_def
  by (intro keeps_intros keeps_modify c p d)

lemma keeps_on_error:
  assumes c: "\<And>s l. I s \<Longrightarrow> I (s\<lparr>console := l\<rparr>)"
  shows "keeps I (on_error w msg)"
  unfolding on_error_def
  by (intro keeps_intros c)

lemma keeps_ping:
  assumes t: "\<And>s w x. I s \<Longrightarrow> I (s\<lparr>sockets := (sockets s)(w := (sockets s w)\<lparr>sent := x\<rparr>)\<rparr>)"
  shows "keeps I (\<lambda>s. if pingRunning (sockets s w) then ping w s else (None, s))"
  unfolding ping_def
  by (intro keeps_intros keeps_ws_send t)

lemma keeps_fire_registry:
  assumes c: "\<And>s l. I s \<Longrightarrow> I (s\<lparr>console := l\<rparr>)"
      and k: "\<And>s x. I s \<Longrightarrow> I (s\<lparr>sockets := x\<rparr>)"
      and d: "\<And>s k. I s \<Longrightarrow> I (s\<lparr>clients := AList.delete k (clients s)\<rparr>)"
      and a: "\<And>s k w x. I s \<Longrightarrow>
                I (s\<lparr>clients := AList.update k \<lparr>ws = w, tailscaleIp = x, pingInterval = w\<rparr> (clients s)\<rparr>)"
  shows "keeps I (fire e)"
proof (cases e)
  case (Connection w)
  then show ?thesis
    by (simp add: on_connection_def) (intro keeps_intros keeps_modify k)
next
  case (Message w raw parsed)
  then show ?thesis by (simp add: keeps_on_message c k d a)
next
  case (Closing w)
  then show ?thesis by (simp add: set_readyState_def keeps_modify k)
next
  case (Close w)
  then show ?thesis
    by (simp add: set_readyState_def) (intro keeps_intros keeps_modify keeps_on_close c k d)
next
  case (Error w msg)
  then show ?thesis by (simp add: keeps_on_error c)
next
  case (Tick w)
  then show ?thesis by (simp add: keeps_ping k)
qed

lemma keeps_run: "(\<And>e. keeps I (fire e)) \<Longrightarrow> keeps I (run evs)"
  unfolding run_def by (rule keeps_block) auto

lemma unique_keys_run: "distinct (map fst (clients (snd (run evs init))))"
proof -
  have "keeps (\<lambda>s. distinct (map fst (clients s))) (run evs)"
    by (rule keeps_run, rule keeps_fire_registry) (simp_all add: distinct_delete distinct_update)
  then show ?thesis
    by (rule keepsD) (simp add: init_def)
qed

lemma at_most_one_entry:
  "distinct (map fst m) \<Longrightarrow> length (filter (\<lambda>(k, c). k = x \<and> P c) m) \<le> 1"
proof (induction m)
  case Nil
  show ?case by simp
next
  case (Cons p m)
  obtain k c where p: "p = (k, c)" by (cases p)
  show ?case
  proof (cases "k = x")
    case True
    with Cons.prems p have "x \<notin> fst ` set m" by simp
    then have "filter (\<lambda>(k, c). k = x \<and> P c) m = []"
      by (force simp: filter_empty_conv)
    with p show ?thesis by simp
  next
    case False
    with Cons p show ?thesis by simp
  qed
qed

subsection \<open>What a \<open>message\<close> callback does\<close>

lemma on_message_returns: "fst (on_message w raw parsed s) = None"
  by (simp add: on_message_def console_log_def modify_def try_catch_def split: prod.splits option.splits)

lemma log1_loggable:
  "loggable a \<Longrightarrow> log1 l a s = (None, s\<lparr>console := console s @ [l (text_of a)]\<rparr>)"
  by (simp add: log1_def console_log_def modify_def loggable_to_string)

lemma log2_loggable:
  "loggable a \<Longrightarrow> loggable b \<Longrightarrow>
   log2 l a b s = (None, s\<lparr>console := console s @ [l (text_of a) (text_of b)]\<rparr>)"
  by (simp add: log2_def console_log_def modify_def loggable_to_string)

lemma log3_loggable:
  "loggable a \<Longrightarrow> loggable b \<Longrightarrow> loggable c \<Longrightarrow>
   log3 l a b c s = (None, s\<lparr>console := console s @ [l (text_of a) (text_of b) (text_of c)]\<rparr>)"
  by (simp add: log3_def console_log_def modify_def loggable_to_string)

lemma connected_user_console [simp]: "connected_user (s\<lparr>console := l\<rparr>) = connected_user s"
  by (simp add: connected_user_def fun_eq_iff)

lemma log_entries:
  "loggable_registry es \<Longrightarrow>
   block (map (\<lambda>(uid, c) s'. log2 (\<lambda>u t. LogConnectedUser u t (readyState (sockets s' (ws c))))
                              uid (tailscaleIp c) s') es) s
   = (None, s\<lparr>console := console s @ map (connected_user s) es\<rparr>)"
proof (induction es arbitrary: s)
  case Nil
  show ?case by simp
next
  case (Cons e es)
  obtain uid c where e: "e = (uid, c)" by (cases e)
  from Cons.prems e have l: "loggable uid" "loggable (tailscaleIp c)" and r: "loggable_registry es"
    by (simp_all add: loggable_registry_def)
  show ?case
    by (simp add: e log2_loggable [OF l] Cons.IH [OF r]) (simp add: connected_user_def)
qed

lemma logConnectedUsers_loggable:
  "loggable_registry (clients s) \<Longrightarrow>
   logConnectedUsers s =
     (None, s\<lparr>console := console s @ LogConnectedUsers # map (connected_user s) (clients s)\<rparr>)"
  by (simp add: logConnectedUsers_def console_log_def modify_def log_entries)

lemma update_absent: "k \<notin> fst ` set m \<Longrightarrow> AList.update k v m = m @ [(k, v)]"
  by (induction m) auto

lemma set_after_delete: "AList.update k v (AList.delete k m) = AList.delete k m @ [(k, v)]"
  by (rule update_absent) (simp add: delete_notin_dom)

lemma register_ok:
  assumes "field data ''type'' = JStr ''register''"
      and "\<not> is_live s (map_of (clients s) (field data ''userId''))"
      and "loggable (field data ''userId'')"
      and "loggable (tailscaleIp_of data)"
      and "loggable_registry (AList.delete (field data ''userId'') (clients s))"
  shows "fst (on_message w raw (Inr data) s) = None"
    and "clients (snd (on_message w raw (Inr data) s)) =
           AList.delete (field data ''userId'') (clients s) @
           [(field data ''userId'', \<lparr>ws = w, tailscaleIp = tailscaleIp_of data, pingInterval = w\<rparr>)]"
    and "sockets (snd (on_message w raw (Inr data) s)) =
           (sockets s)(w := (sockets s w)
              \<lparr>userId := field data ''userId'',
               sent := sent (sockets s w) @ [registered data]\<rparr>)"
proof -
  let ?m = "AList.delete (field data ''userId'') (clients s) @
            [(field data ''userId'', \<lparr>ws = w, tailscaleIp = tailscaleIp_of data, pingInterval = w\<rparr>)]"
  have live: "\<not> is_live (s\<lparr>console := console s @ [LogRawMessage raw, LogParsedMessage data],
               sockets := (sockets s)(w := (sockets s w)\<lparr>userId := field data ''userId''\<rparr>)\<rparr>)
             (map_of (clients s) (field data ''userId''))"
    using assms(2) by (auto simp: is_live_def split: option.splits)
  have lg: "loggable_registry ?m"
    using assms(3,4,5) by (simp add: loggable_registry_def)
  show "fst (on_message w raw (Inr data) s) = None" by (rule on_message_returns)
  note ev = on_message_def handle_register_def modify_def console_log_def ws_send_def
          try_catch_def get_prop_type set_after_delete
          log2_loggable [OF assms(3,4)] logConnectedUsers_loggable registered_def
  show "clients (snd (on_message w raw (Inr data) s)) = ?m"
    using assms(1) live lg by (simp add: ev)
  show "sockets (snd (on_message w raw (Inr data) s)) =
           (sockets s)(w := (sockets s w)
              \<lparr>userId := field data ''userId'',
               sent := sent (sockets s w) @ [registered data]\<rparr>)"
    using assms(1) live lg by (simp add: ev)
qed

lemma route_message:
  assumes "field data ''type'' = JStr ''message''"
      and "loggable (field data ''from'')" "loggable (field data ''to'')" "loggable (field data ''message'')"
  shows "clients (snd (on_message w raw (Inr data) s)) = clients s"
    and "sockets (snd (on_message w raw (Inr data) s)) = delivered s (field data ''to'') (relayed data)"
  using assms(1)
  by (simp_all add: on_message_def handle_message_def modify_def console_log_def ws_send_def
        try_catch_def get_prop_type log3_loggable [OF assms(2,3,4)] log1_loggable [OF assms(3)]
        relayed_def delivered_def split: option.splits)

lemma route_signal:
  assumes "field data ''type'' = JStr ''webrtc-signal''"
  shows "clients (snd (on_message w raw (Inr data) s)) = clients s"
    and "sockets (snd (on_message w raw (Inr data) s)) = delivered s (field data ''to'') (relayed data)"
  using assms(1)
  by (simp_all add: on_message_def handle_signal_def modify_def console_log_def ws_send_def
        try_catch_def get_prop_type log3_def log1_def
        relayed_def delivered_def split: option.splits sum.splits)

lemma dropped:
  assumes "case parsed of Inl e \<Rightarrow> True
           | Inr data \<Rightarrow> field data ''type'' \<notin> {JStr ''register'', JStr ''message'', JStr ''webrtc-signal''}"
  shows "clients (snd (on_message w raw parsed s)) = clients s"
    and "sockets (snd (on_message w raw parsed s)) = sockets s"
proof -
  note ev = on_message_def modify_def console_log_def try_catch_def get_prop_def
  show "clients (snd (on_message w raw parsed s)) = clients s"
    using assms by (cases parsed) (simp_all add: ev)
  show "sockets (snd (on_message w raw parsed s)) = sockets s"
    using assms by (cases parsed) (simp_all add: ev)
qed

subsection \<open>What the \<open>close\<close> callback and a run do\<close>

lemma block_modify: "block (modify f # fs) s = block fs (f s)"
  by (simp add: modify_def)

lemma snd_block_single: "snd (block [f] s) = snd (f s)"
  by (cases "f s") (auto split: option.splits)

lemma keeps_after_modify: "keeps I (block fs) \<Longrightarrow> I (f s) \<Longrightarrow> I (snd (block (modify f # fs) s))"
  by (simp only: block_modify) (erule keepsD)

lemma on_close_pingRunning:
  "pingRunning (sockets (snd (on_close w s)) v) = (v \<noteq> w \<and> pingRunning (sockets s v))"
  unfolding on_close_def clearInterval_def
  by (rule keeps_after_modify [where I = "\<lambda>s'. pingRunning (sockets s' v) = (v \<noteq> w \<and> pingRunning (sockets s v))"])
     (intro keeps_intros keeps_modify, auto)

lemma fire_Close:
  "snd (fire (Close w) s) =
     snd (on_close w (s\<lparr>sockets := (sockets s)(w := (sockets s w)\<lparr>readyState := CLOSED\<rparr>)\<rparr>))"
  by (simp only: fire.simps set_readyState_def block_modify snd_block_single)

lemma fire_Close_pingRunning:
  "pingRunning (sockets (snd (fire (Close w) s)) v) = (v \<noteq> w \<and> pingRunning (sockets s v))"
  by (simp only: fire_Close on_close_pingRunning) simp

lemma fire_pingRunning:
  "pingRunning (sockets (snd (fire e s)) v) =
     (if e = Connection v then True else if e = Close v then False else pingRunning (sockets s v))"
proof (cases e)
  case (Connection w)
  then show ?thesis by (simp add: on_connection_def modify_def)
next
  case (Message w raw parsed)
  have "keeps (\<lambda>s'. pingRunning (sockets s' v) = pingRunning (sockets s v)) (on_message w raw parsed)"
    by (rule keeps_on_message) auto
  from keepsD [OF this, of s] show ?thesis using Message by simp
next
  case (Closing w)
  then show ?thesis by (simp add: set_readyState_def modify_def)
next
  case (Close w)
  show ?thesis
    by (simp only: Close fire_Close_pingRunning) auto
next
  case (Error w msg)
  have "keeps (\<lambda>s'. pingRunning (sockets s' v) = pingRunning (sockets s v)) (on_error w msg)"
    by (rule keeps_on_error) auto
  from keepsD [OF this, of s] show ?thesis using Error by simp
next
  case (Tick w)
  have "keeps (\<lambda>s'. pingRunning (sockets s' v) = pingRunning (sockets s v))
          (\<lambda>s. if pingRunning (sockets s w) then ping w s else (None, s))"
    by (rule keeps_ping) auto
  from keepsD [OF this, of s] show ?thesis using Tick by simp
qed

lemma run_Cons:
  "run (e # evs) s = (case fire e s of (None, s') \<Rightarrow> run evs s' | (Some x, s') \<Rightarrow> (Some x, s'))"
  unfolding run_def by simp

lemma run_pingRunning:
  "fst (run evs s) = None \<Longrightarrow>
   pingRunning (sockets (snd (run evs s)) v) = open_after evs v (pingRunning (sockets s v))"
proof (induction evs arbitrary: s)
  case Nil
  show ?case by (simp add: run_def)
next
  case (Cons e evs)
  obtain r s' where f: "fire e s = (r, s')" by (cases "fire e s")
  with Cons.prems have r: "r = None" and rest: "fst (run evs s') = None"
    by (auto simp: run_Cons split: option.splits)
  have "pingRunning (sockets s' v) =
          (if e = Connection v then True else if e = Close v then False else pingRunning (sockets s v))"
    using fire_pingRunning [of e s v] f by simp
  then show ?case
    using Cons.IH [OF rest] f r by (simp add: run_Cons)
qed

lemma list_all_update: "list_all P m \<Longrightarrow> P (k, v) \<Longrightarrow> list_all P (AList.update k v m)"
  by (induction m) auto

lemma list_all_delete: "list_all P m \<Longrightarrow> list_all P (AList.delete k m)"
  by (induction m) auto

lemma run_own_timer: "list_all (\<lambda>(k, c). pingInterval c = ws c) (clients (snd (run evs init)))"
proof -
  have "keeps (\<lambda>s. list_all (\<lambda>(k, c). pingInterval c = ws c) (clients s)) (run evs)"
    by (rule keeps_run, rule keeps_fire_registry) (simp_all add: list_all_update list_all_delete)
  then show ?thesis
    by (rule keepsD) (simp add: init_def)
qed





lemma loggable_registry_delete: "loggable_registry m \<Longrightarrow> loggable_registry (AList.delete k m)"
  by (induction m) (auto simp: loggable_registry_def)

lemma map_of_after_set: "map_of (AList.delete k m @ [(k, v)]) k = Some v"
  by (simp add: map_of_append delete_conv' map_add_def)

lemmas run_defs = run_def init_def on_connection_def on_message_def on_close_def on_error_def ping_def
  handle_register_def handle_message_def handle_signal_def logConnectedUsers_def
  modify_def console_log_def ws_send_def clearInterval_def log1_def log2_def log3_def
  try_catch_def set_readyState_def is_live_def get_prop_def tailscaleIp_of_def register_envelope_def
  already_registered_def



subsection \<open>Loggable traffic\<close>

lemma loggable_simps [simp]:
  "loggable JNull" "loggable JUndefined" "loggable (JStr x)" "loggable (JNum n)" "loggable (JBool b)"
  by (simp_all add: loggable_def)

lemma loggable_registry_update:
  "loggable_registry m \<Longrightarrow> loggable k \<Longrightarrow> loggable (tailscaleIp c) \<Longrightarrow>
   loggable_registry (AList.update k c m)"
  by (simp add: loggable_registry_def list_all_update)

lemma keeps_handle_message:
  assumes c: "\<And>s l. I s \<Longrightarrow> I (s\<lparr>console := l\<rparr>)"
      and t: "\<And>s w x. I s \<Longrightarrow> I (s\<lparr>sockets := (sockets s)(w := (sockets s w)\<lparr>sent := x\<rparr>)\<rparr>)"
  shows "keeps I (handle_message data)" and "keeps I (handle_signal data)"
proof -
  show "keeps I (handle_message data)"
    unfolding handle_message_def by (intro keeps_intros keeps_ws_send c t)
  show "keeps I (handle_signal data)"
    unfolding handle_signal_def by (intro keeps_intros keeps_ws_send c t)
qed

lemma keeps_plain_message:
  assumes "plain (Message w raw parsed)"
  shows "keeps all_loggable (on_message w raw parsed)"
proof (cases parsed)
  case (Inl e)
  show ?thesis
    by (simp add: on_message_def Inl del: block.simps)
       (intro keeps_intros, simp_all add: all_loggable_def)
next
  case (Inr data)
  show ?thesis
  proof (cases "data = JNull \<or> data = JUndefined")
    case True
    then show ?thesis
      by (simp add: on_message_def Inr get_prop_def del: block.simps)
         (intro conjI impI keeps_intros, simp_all add: all_loggable_def)
  next
    case False
    note obj = this
    show ?thesis
    proof (cases "field data ''type'' = JStr ''register''")
      case True
      with assms Inr have l: "loggable (field data ''userId'')" "loggable (tailscaleIp_of data)"
        by simp_all
      show ?thesis
        using obj True
        by (simp add: on_message_def Inr get_prop_def handle_register_def del: block.simps)
           (intro keeps_intros keeps_ws_send keeps_modify,
            simp_all add: all_loggable_def l loggable_registry_delete loggable_registry_update)
    next
      case False
      show ?thesis
        using obj False
        by (simp add: on_message_def Inr get_prop_def del: block.simps)
           (intro conjI impI keeps_intros keeps_handle_message,
            simp_all add: all_loggable_def)
    qed
  qed
qed

lemma on_close_returns: "all_loggable s \<Longrightarrow> fst (on_close w s) = None"
  by (simp add: on_close_def clearInterval_def modify_def all_loggable_def log1_loggable
        logConnectedUsers_loggable loggable_registry_delete)

lemma on_error_returns: "all_loggable s \<Longrightarrow> fst (on_error w msg s) = None"
  by (simp add: on_error_def all_loggable_def log1_loggable)

lemma fire_plain:
  assumes "plain e" and "all_loggable s"
  shows "fst (fire e s) = None \<and> all_loggable (snd (fire e s))"
proof (cases e)
  case (Connection w)
  with assms(2) show ?thesis
    by (simp add: on_connection_def modify_def all_loggable_def)
next
  case (Message w raw parsed)
  with assms show ?thesis
    by (simp add: on_message_returns keepsD [OF keeps_plain_message] del: plain.simps)
next
  case (Closing w)
  with assms(2) show ?thesis
    by (simp add: set_readyState_def modify_def all_loggable_def)
next
  case (Close w)
  let ?s1 = "s\<lparr>sockets := (sockets s)(w := (sockets s w)\<lparr>readyState := CLOSED\<rparr>)\<rparr>"
  have l: "all_loggable ?s1"
    using assms(2) by (simp add: all_loggable_def)
  have "keeps all_loggable (on_close w)"
    by (rule keeps_on_close) (simp_all add: all_loggable_def loggable_registry_delete)
  from keepsD [OF this l] on_close_returns [OF l, of w] have
    "fst (on_close w ?s1) = None \<and> all_loggable (snd (on_close w ?s1))"
    by simp
  moreover have "fire (Close w) s = block [on_close w] ?s1"
    by (simp only: fire.simps set_readyState_def block_modify)
  ultimately show ?thesis
    unfolding Close by (cases "on_close w ?s1") (simp del: fire.simps)
next
  case (Error w msg)
  have "keeps all_loggable (on_error w msg)"
    by (rule keeps_on_error) (simp add: all_loggable_def)
  from keepsD [OF this assms(2)] on_error_returns [OF assms(2), of w msg] Error
  show ?thesis by simp
next
  case (Tick w)
  have "keeps all_loggable (\<lambda>s. if pingRunning (sockets s w) then ping w s else (None, s))"
    by (rule keeps_ping) (simp add: all_loggable_def)
  from keepsD [OF this assms(2)] Tick
  show ?thesis by (simp add: ping_def ws_send_def modify_def)
qed

lemma run_plain:
  "list_all plain evs \<Longrightarrow> all_loggable s \<Longrightarrow>
   fst (run evs s) = None \<and> all_loggable (snd (run evs s))"
proof (induction evs arbitrary: s)
  case Nil
  then show ?case by (simp add: run_def)
next
  case (Cons e evs)
  from Cons.prems have e: "plain e" and rest: "list_all plain evs" by simp_all
  obtain r s' where f: "fire e s = (r, s')" by (cases "fire e s")
  with fire_plain [OF e Cons.prems(2)] have r: "r = None" and l: "all_loggable s'" by simp_all
  show ?case
    using Cons.IH [OF rest l] f r by (simp add: run_Cons)
qed

section \<open>The properties the specification states\<close>

subsection \<open>Teardown of a connection\<close>

text \<open>
  C1 says the \<open>close\<close> callback removes only the record of the connection that closes.
  The callback deletes by user id, and the \<open>register\<close> branch assigns \<open>userId\<close> before it
  looks for a duplicate. So: socket 0 registers as alice; socket 1 asks for alice and is
  refused with \<open>already registered\<close>; socket 1 closes. The entry of socket 0 is deleted
  while socket 0 is open. Likewise when socket 0 registers as alice and leaves the open
  state, socket 1 registers as alice in its place, and only then \<open>close\<close> is emitted on
  socket 0: the entry of socket 1 is deleted.
\<close>

theorem close_evicts_another_connection:
  "map_of (clients (snd (run [Connection 0, Connection 1,
        Message 0 ''a'' (Inr (register_envelope 100 (JStr ''alice''))),
        Message 1 ''b'' (Inr (register_envelope 101 (JStr ''alice'')))] init))) (JStr ''alice'')
     = Some \<lparr>ws = 0, tailscaleIp = JStr ''N/A'', pingInterval = 0\<rparr> \<and>
   sent (sockets (snd (run [Connection 0, Connection 1,
        Message 0 ''a'' (Inr (register_envelope 100 (JStr ''alice''))),
        Message 1 ''b'' (Inr (register_envelope 101 (JStr ''alice'')))] init)) 1)
     = [already_registered ''alice''] \<and>
   clients (snd (run [Connection 0, Connection 1,
        Message 0 ''a'' (Inr (register_envelope 100 (JStr ''alice''))),
        Message 1 ''b'' (Inr (register_envelope 101 (JStr ''alice''))),
        Close 1] init)) = [] \<and>
   readyState (sockets (snd (run [Connection 0, Connection 1,
        Message 0 ''a'' (Inr (register_envelope 100 (JStr ''alice''))),
        Message 1 ''b'' (Inr (register_envelope 101 (JStr ''alice''))),
        Close 1] init)) 0) = OPEN \<and>
   map_of (clients (snd (run [Connection 0, Connection 1,
        Message 0 ''a'' (Inr (register_envelope 100 (JStr ''alice''))),
        Closing 0,
        Message 1 ''b'' (Inr (register_envelope 101 (JStr ''alice'')))] init))) (JStr ''alice'')
     = Some \<lparr>ws = 1, tailscaleIp = JStr ''N/A'', pingInterval = 1\<rparr> \<and>
   clients (snd (run [Connection 0, Connection 1,
        Message 0 ''a'' (Inr (register_envelope 100 (JStr ''alice''))),
        Closing 0,
        Message 1 ''b'' (Inr (register_envelope 101 (JStr ''alice''))),
        Close 0] init)) = [] \<and>
   readyState (sockets (snd (run [Connection 0, Connection 1,
        Message 0 ''a'' (Inr (register_envelope 100 (JStr ''alice''))),
        Closing 0,
        Message 1 ''b'' (Inr (register_envelope 101 (JStr ''alice''))),
        Close 0] init)) 1) = OPEN"
  by (simp add: run_defs)




subsection \<open>The \<open>error\<close> callback\<close>

text \<open>
  C3 as stated fails: the \<open>error\<close> callback does no teardown. A registered socket on which
  \<open>error\<close> is emitted keeps its entry in \<open>clients\<close> and its interval.
\<close>

theorem error_keeps_record_and_timer:
  "fst (run [Connection 0, Message 0 ''r'' (Inr (register_envelope 100 (JStr ''alice''))),
             Error 0 ''read ECONNRESET''] init) = None \<and>
   clients (snd (run [Connection 0, Message 0 ''r'' (Inr (register_envelope 100 (JStr ''alice''))),
                      Error 0 ''read ECONNRESET''] init))
     = [(JStr ''alice'', \<lparr>ws = 0, tailscaleIp = JStr ''N/A'', pingInterval = 0\<rparr>)] \<and>
   pingRunning (sockets (snd (run [Connection 0, Message 0 ''r'' (Inr (register_envelope 100 (JStr ''alice''))),
                      Error 0 ''read ECONNRESET''] init)) 0)"
  by (simp add: run_defs)

text \<open>
  C3, amended. The \<open>error\<close> callback writes one line to the console, with the socket's
  \<open>userId\<close> or \<open>unknown\<close> and the error's message, and changes nothing else: not the
  interval, not \<open>clients\<close>. It completes without an exception when the \<open>userId\<close> is
  loggable. Teardown is left to the \<open>close\<close> callback.
\<close>

theorem error_only_logs:
  assumes "loggable (userId (sockets s w))"
  shows "on_error w msg s =
           (None, s\<lparr>console := console s @
              [LogSocketError (if truthy (userId (sockets s w)) then text_of (userId (sockets s w))
                               else ''unknown'') msg]\<rparr>)"
  using assms by (simp add: on_error_def log1_loggable text_of_def)

theorem error_only_logs_witness:
  "on_error 0 ''read ECONNRESET'' alice_and_bob =
     (None, alice_and_bob\<lparr>console := [LogSocketError ''alice'' ''read ECONNRESET'']\<rparr>)"
  using error_only_logs [of alice_and_bob 0 "''read ECONNRESET''"]
  by (simp add: alice_and_bob_def opened_def loggable_def text_of_def)

subsection \<open>The lifetime of the ping interval\<close>

text \<open>
  C4 as stated fails: the interval is created by the \<open>connection\<close> callback, not at
  registration. A socket that never registers has a running interval, which pings it; and
  the two entries that one socket registers under two identities hold the same interval.
\<close>

theorem timer_without_registration:
  "clients (snd (run [Connection 0, Tick 0] init)) = [] \<and>
   pingRunning (sockets (snd (run [Connection 0, Tick 0] init)) 0) \<and>
   sent (sockets (snd (run [Connection 0, Tick 0] init)) 0) = [[(''type'', JStr ''ping'')]] \<and>
   clients (snd (run [Connection 0,
        Message 0 ''a'' (Inr (register_envelope 100 (JStr ''alice''))),
        Message 0 ''b'' (Inr (register_envelope 101 (JStr ''bob'')))] init))
     = [(JStr ''alice'', \<lparr>ws = 0, tailscaleIp = JStr ''N/A'', pingInterval = 0\<rparr>),
        (JStr ''bob'', \<lparr>ws = 0, tailscaleIp = JStr ''N/A'', pingInterval = 0\<rparr>)]"
  by (simp add: run_defs)

text \<open>
  C4, amended. The lifetime of a socket's interval is the lifetime of the connection, not
  of a record: after every sequence of events that the process survives, the interval of
  socket \<open>w\<close> is scheduled exactly if \<open>w\<close> has had its \<open>connection\<close> callback and not
  its \<open>close\<close> callback since. No other callback creates or clears an interval: not a
  registration, not the replacement of a stale entry, not \<open>error\<close>. Every entry of
  \<open>clients\<close> holds the interval of the socket it is bound to.
\<close>

theorem timer_lifetime:
  assumes "fst (run evs init) = None"
  shows "pingRunning (sockets (snd (run evs init)) w) = open_after evs w False \<and>
         list_all (\<lambda>(k, c). pingInterval c = ws c) (clients (snd (run evs init)))"
  using run_pingRunning [OF assms, of w] run_own_timer [of evs] by (simp add: init_def)

theorem timer_lifetime_witness:
  "fst (run [Connection 0, Connection 1, Message 1 ''r'' (Inr (register_envelope 100 (JStr ''bob''))),
             Error 1 ''read ECONNRESET'', Close 1] init) = None \<and>
   pingRunning (sockets (snd (run [Connection 0, Connection 1,
             Message 1 ''r'' (Inr (register_envelope 100 (JStr ''bob''))),
             Error 1 ''read ECONNRESET'', Close 1] init)) 0) \<and>
   \<not> pingRunning (sockets (snd (run [Connection 0, Connection 1,
             Message 1 ''r'' (Inr (register_envelope 100 (JStr ''bob''))),
             Error 1 ''read ECONNRESET'', Close 1] init)) 1)"
proof -
  have ok: "fst (run [Connection 0, Connection 1, Message 1 ''r'' (Inr (register_envelope 100 (JStr ''bob''))),
             Error 1 ''read ECONNRESET'', Close 1] init) = None"
    by (simp add: run_defs)
  show ?thesis
    using ok timer_lifetime [OF ok, of 0] timer_lifetime [OF ok, of 1] by simp
qed

subsection \<open>Registration\<close>

text \<open>
  C5. A \<open>register\<close> envelope naming an identity that \<open>clients\<close> binds to an open socket
  is refused: the requesting socket is sent \<open>{type: 'error', message: 'User "X" is already
  registered.'}\<close> and nothing else is sent, and \<open>clients\<close> is left exactly as it was, so
  the identity stays bound to the socket it was bound to. The only other change is that the
  closure of the requesting socket now holds the identity in \<open>userId\<close>. (The identity is
  taken to be loggable, as every string is.)
\<close>

theorem duplicate_rejected:
  assumes "field data ''type'' = JStr ''register''"
      and "map_of (clients s) (field data ''userId'') = Some existing"
      and "readyState (sockets s (ws existing)) = OPEN"
      and "to_string (field data ''userId'') = Inr x"
  shows "on_message w raw (Inr data) s =
           (None, s\<lparr>sockets := (sockets s)(w := (sockets s w)
                        \<lparr>userId := field data ''userId'',
                         sent := sent (sockets s w) @ [already_registered x]\<rparr>),
                    console := console s @ [LogRawMessage raw, LogParsedMessage data, LogDuplicate x]\<rparr>)"
  using assms
  by (auto simp add: on_message_def handle_register_def stmt_defs is_live_def get_prop_type)

theorem duplicate_rejected_witness:
  "on_message 1 ''r1'' (Inr (register_envelope 101 (JStr ''alice'')))
     \<lparr>clients = [(JStr ''alice'', \<lparr>ws = 0, tailscaleIp = JStr ''N/A'', pingInterval = 0\<rparr>)],
      sockets = (\<lambda>w. \<lparr>userId = JNull, readyState = OPEN, pingRunning = True, sent = []\<rparr>),
      console = []\<rparr>
   = (None,
      \<lparr>clients = [(JStr ''alice'', \<lparr>ws = 0, tailscaleIp = JStr ''N/A'', pingInterval = 0\<rparr>)],
       sockets = (\<lambda>w. \<lparr>userId = JNull, readyState = OPEN, pingRunning = True, sent = []\<rparr>)
         (1 := \<lparr>userId = JStr ''alice'', readyState = OPEN, pingRunning = True,
                sent = [[(''type'', JStr ''error''),
                         (''message'', JStr (''User '' @ [CHR 0x22] @ ''alice'' @ [CHR 0x22] @
                                             '' is already registered.''))]]\<rparr>),
       console = [LogRawMessage ''r1'', LogParsedMessage (register_envelope 101 (JStr ''alice'')),
                  LogDuplicate ''alice'']\<rparr>)"
  using duplicate_rejected [of "register_envelope 101 (JStr ''alice'')"
      "\<lparr>clients = [(JStr ''alice'', \<lparr>ws = 0, tailscaleIp = JStr ''N/A'', pingInterval = 0\<rparr>)],
        sockets = (\<lambda>w. \<lparr>userId = JNull, readyState = OPEN, pingRunning = True, sent = []\<rparr>),
        console = []\<rparr>"
      "\<lparr>ws = 0, tailscaleIp = JStr ''N/A'', pingInterval = 0\<rparr>" "''alice''" 1 "''r1''"]
  by (simp add: register_envelope_def already_registered_def)

text \<open>
  A \<open>register\<close> envelope for an identity that \<open>clients\<close> does not bind, or binds to a
  socket that is not open, succeeds if the identity, the address and the other entries are
  loggable: the old entry is deleted, an entry binding the identity to the requesting socket
  is appended, and that socket is sent \<open>{type: 'registered', userId, tailscaleIp}\<close>, where
  \<open>tailscaleIp\<close> is \<open>N/A\<close> if \<open>tailscaleIP\<close> is absent or the string \<open>null\<close>, and the value
  supplied if that is truthy and not \<open>null\<close>. Nothing is sent on any other socket.
\<close>

lemma registration_succeeds:
  assumes "field data ''type'' = JStr ''register''"
      and "\<not> is_live s (map_of (clients s) (field data ''userId''))"
      and "loggable (field data ''userId'')"
      and "loggable (tailscaleIp_of data)"
      and "loggable_registry (AList.delete (field data ''userId'') (clients s))"
  shows "fst (on_message w raw (Inr data) s) = None \<and>
         clients (snd (on_message w raw (Inr data) s)) =
           AList.delete (field data ''userId'') (clients s) @
           [(field data ''userId'', \<lparr>ws = w, tailscaleIp = tailscaleIp_of data, pingInterval = w\<rparr>)] \<and>
         sockets (snd (on_message w raw (Inr data) s)) =
           (sockets s)(w := (sockets s w)
              \<lparr>userId := field data ''userId'', sent := sent (sockets s w) @ [registered data]\<rparr>) \<and>
         (field data ''tailscaleIP'' = JUndefined \<or> field data ''tailscaleIP'' = JStr ''null''
            \<longrightarrow> tailscaleIp_of data = JStr ''N/A'') \<and>
         (truthy (field data ''tailscaleIP'') \<and> field data ''tailscaleIP'' \<noteq> JStr ''null''
            \<longrightarrow> tailscaleIp_of data = field data ''tailscaleIP'')"
  using register_ok [OF assms] by (auto simp: tailscaleIp_of_def)

lemma registration_succeeds_example:
  "clients (snd (on_message 1 ''r'' (Inr (JObj 300 [(''type'', JStr ''register''), (''userId'', JStr ''alice''),
                                                   (''tailscaleIP'', JStr ''null'')])) stale_alice))
     = [(JStr ''alice'', \<lparr>ws = 1, tailscaleIp = JStr ''N/A'', pingInterval = 1\<rparr>)] \<and>
   sent (sockets (snd (on_message 1 ''r'' (Inr (JObj 300 [(''type'', JStr ''register''), (''userId'', JStr ''alice''),
                                                   (''tailscaleIP'', JStr ''null'')])) stale_alice)) 1)
     = [[(''type'', JStr ''registered''), (''userId'', JStr ''alice''), (''tailscaleIp'', JStr ''N/A'')]]"
  using registration_succeeds [of "JObj 300 [(''type'', JStr ''register''), (''userId'', JStr ''alice''),
                                            (''tailscaleIP'', JStr ''null'')]" stale_alice 1 "''r''"]
  by (simp add: stale_alice_def opened_def is_live_def loggable_def loggable_registry_def
        tailscaleIp_of_def registered_def)

text \<open>
  C6 says that every \<open>register\<close> envelope for an identity without a live entry succeeds
  and is answered with \<open>{type: 'registered', ...}\<close>. The \<open>register\<close> branch stores the entry,
  then writes its log lines, the one of \<open>logConnectedUsers\<close> for every entry of \<open>clients\<close>,
  and only then sends the confirmation. So: socket 0 registers as mallory with the address
  \<open>{toString: 1}\<close>, which is truthy and stored as it is; socket 1 registers as bob, an
  identity \<open>clients\<close> does not hold. The entry of bob is stored, \<open>logConnectedUsers\<close> throws
  at the entry of mallory, the \<open>catch\<close> logs it, and bob is sent nothing. Nor was mallory.
\<close>

theorem poisoned_registry_loses_confirmation:
  "fst (run [Connection 0, Connection 1, Message 0 ''m'' (Inr mallory),
             Message 1 ''b'' (Inr (register_envelope 101 (JStr ''bob'')))] init) = None \<and>
   map_of (clients (snd (run [Connection 0, Connection 1, Message 0 ''m'' (Inr mallory)] init))) (JStr ''bob'')
     = None \<and>
   map_of (clients (snd (run [Connection 0, Connection 1, Message 0 ''m'' (Inr mallory),
             Message 1 ''b'' (Inr (register_envelope 101 (JStr ''bob'')))] init))) (JStr ''bob'')
     = Some \<lparr>ws = 1, tailscaleIp = JStr ''N/A'', pingInterval = 1\<rparr> \<and>
   sent (sockets (snd (run [Connection 0, Connection 1, Message 0 ''m'' (Inr mallory),
             Message 1 ''b'' (Inr (register_envelope 101 (JStr ''bob'')))] init)) 1) = [] \<and>
   sent (sockets (snd (run [Connection 0, Connection 1, Message 0 ''m'' (Inr mallory),
             Message 1 ''b'' (Inr (register_envelope 101 (JStr ''bob'')))] init)) 0) = []"
  by (simp add: run_defs mallory_def)

text \<open>
  A \<open>register\<close> envelope whose \<open>userId\<close> is absent or the empty string is handled as any
  other: if \<open>clients\<close> has no live entry under that value and the address and the other
  entries are loggable, the value is bound to the requesting socket and the socket is sent
  the confirmation, with that \<open>userId\<close> (for an absent one the property is \<open>undefined\<close>, so
  the text sent has no \<open>userId\<close>). A \<open>message\<close> envelope whose \<open>to\<close> is that value
  (absent, or the empty string) is then forwarded to the socket.
\<close>

lemma unvalidated_identity:
  assumes "field data ''type'' = JStr ''register''"
      and "field data ''userId'' = JUndefined \<or> field data ''userId'' = JStr ''''"
      and "\<not> is_live s (map_of (clients s) (field data ''userId''))"
      and "loggable (tailscaleIp_of data)"
      and "loggable_registry (AList.delete (field data ''userId'') (clients s))"
      and "readyState (sockets s w) = OPEN"
      and "field m ''type'' = JStr ''message''"
      and "field m ''to'' = field data ''userId''"
      and "loggable (field m ''from'')"
      and "loggable (field m ''message'')"
  shows "map_of (clients (snd (on_message w raw (Inr data) s))) (field data ''userId'') =
           Some \<lparr>ws = w, tailscaleIp = tailscaleIp_of data, pingInterval = w\<rparr> \<and>
         sent (sockets (snd (on_message w raw (Inr data) s)) w) =
           sent (sockets s w) @ [registered data] \<and>
         sent (sockets (snd (on_message v raw' (Inr m) (snd (on_message w raw (Inr data) s)))) w) =
           sent (sockets s w) @ [registered data, relayed m]"
proof -
  let ?s1 = "snd (on_message w raw (Inr data) s)"
  have lu: "loggable (field data ''userId'')"
    using assms(2) by (auto simp: loggable_def)
  note r = register_ok [OF assms(1) assms(3) lu assms(4) assms(5), of w raw]
  have bound: "map_of (clients ?s1) (field data ''userId'') =
                 Some \<lparr>ws = w, tailscaleIp = tailscaleIp_of data, pingInterval = w\<rparr>"
    by (simp only: r(2) map_of_after_set)
  have sent1: "sent (sockets ?s1 w) = sent (sockets s w) @ [registered data]"
    by (simp add: r(3))
  have open1: "readyState (sockets ?s1 w) = OPEN"
    using assms(6) by (simp add: r(3))
  have lt: "loggable (field m ''to'')"
    using lu assms(8) by simp
  have "sockets (snd (on_message v raw' (Inr m) ?s1)) = delivered ?s1 (field m ''to'') (relayed m)"
    by (rule route_message [OF assms(7) assms(9) lt assms(10)])
  then have "sent (sockets (snd (on_message v raw' (Inr m) ?s1)) w) = sent (sockets ?s1 w) @ [relayed m]"
    using bound open1 by (simp add: delivered_def assms(8))
  with bound sent1 show ?thesis by simp
qed

lemma unvalidated_identity_example:
  "map_of (clients (snd (on_message 2 ''r'' (Inr (register_envelope 300 (JStr ''''))) alice_and_bob))) (JStr '''')
     = Some \<lparr>ws = 2, tailscaleIp = JStr ''N/A'', pingInterval = 2\<rparr> \<and>
   sent (sockets (snd (on_message 0 ''m''
           (Inr (JObj 301 [(''type'', JStr ''message''), (''from'', JStr ''alice''), (''to'', JStr ''''),
                           (''message'', JStr ''hi'')]))
           (snd (on_message 2 ''r'' (Inr (register_envelope 300 (JStr ''''))) alice_and_bob)))) 2)
     = [[(''type'', JStr ''registered''), (''userId'', JStr ''''), (''tailscaleIp'', JStr ''N/A'')],
        [(''type'', JStr ''message''), (''to'', JStr ''''), (''from'', JStr ''alice''),
         (''message'', JStr ''hi''), (''timestamp'', JUndefined)]]"
  using unvalidated_identity [of "register_envelope 300 (JStr '''')" alice_and_bob 2
          "JObj 301 [(''type'', JStr ''message''), (''from'', JStr ''alice''), (''to'', JStr ''''),
                     (''message'', JStr ''hi'')]" "''r''" 0 "''m''"]
  by (simp add: register_envelope_def alice_and_bob_def opened_def is_live_def loggable_def
        loggable_registry_def tailscaleIp_of_def registered_def relayed_def)

text \<open>
  C10 says that a \<open>register\<close> envelope whose \<open>userId\<close> is the empty string is stored and
  confirmed when no live entry exists under that value. With the entry of mallory above in
  \<open>clients\<close>, socket 1 registers the empty identity: the entry is stored, but
  \<open>logConnectedUsers\<close> throws before the confirmation is sent, and socket 1 is sent nothing.
\<close>

theorem empty_identity_unconfirmed:
  "fst (run [Connection 0, Connection 1, Message 0 ''m'' (Inr mallory),
             Message 1 ''e'' (Inr (register_envelope 101 (JStr '''')))] init) = None \<and>
   map_of (clients (snd (run [Connection 0, Connection 1, Message 0 ''m'' (Inr mallory)] init))) (JStr '''')
     = None \<and>
   map_of (clients (snd (run [Connection 0, Connection 1, Message 0 ''m'' (Inr mallory),
             Message 1 ''e'' (Inr (register_envelope 101 (JStr '''')))] init))) (JStr '''')
     = Some \<lparr>ws = 1, tailscaleIp = JStr ''N/A'', pingInterval = 1\<rparr> \<and>
   sent (sockets (snd (run [Connection 0, Connection 1, Message 0 ''m'' (Inr mallory),
             Message 1 ''e'' (Inr (register_envelope 101 (JStr '''')))] init)) 1) = []"
  by (simp add: run_defs mallory_def)

subsection \<open>Routing\<close>

text \<open>
  A \<open>message\<close> or \<open>webrtc-signal\<close> envelope is forwarded once, as an object of the same
  kind with the envelope's own fields, to the socket that \<open>clients\<close> binds to \<open>to\<close>, if there
  is one and it is open; otherwise nothing is sent. In both cases no other socket is sent
  anything, the sender's included, and \<open>clients\<close> is unchanged. For a \<open>message\<close> envelope
  this needs \<open>from\<close>, \<open>to\<close> and \<open>message\<close> to be loggable: the server writes them into a
  log line before it looks the destination up.
\<close>

lemma relayed_iff_live:
  assumes "field data ''type'' = JStr ''message'' \<and> loggable (field data ''from'') \<and>
             loggable (field data ''to'') \<and> loggable (field data ''message'')
           \<or> field data ''type'' = JStr ''webrtc-signal''"
  shows "fst (on_message w raw (Inr data) s) = None \<and>
         clients (snd (on_message w raw (Inr data) s)) = clients s \<and>
         sockets (snd (on_message w raw (Inr data) s)) = delivered s (field data ''to'') (relayed data)"
  using assms route_message [of data w raw s] route_signal [of data w raw s]
  by (auto simp: on_message_returns)

lemma relayed_iff_live_example:
  "sockets (snd (on_message 0 ''m'' (Inr hi_bob) alice_and_bob)) =
     (sockets alice_and_bob)(1 := opened\<lparr>userId := JStr ''bob'',
        sent := [[(''type'', JStr ''message''), (''to'', JStr ''bob''), (''from'', JStr ''alice''),
                  (''message'', JStr ''hi''), (''timestamp'', JNum ''1'')]]\<rparr>) \<and>
   sockets (snd (on_message 0 ''s'' (Inr offer_carol) alice_and_bob)) = sockets alice_and_bob"
  using relayed_iff_live [of hi_bob 0 "''m''" alice_and_bob]
        relayed_iff_live [of offer_carol 0 "''s''" alice_and_bob]
  by (simp add: hi_bob_def offer_carol_def alice_and_bob_def opened_def loggable_def
        delivered_def relayed_def)

text \<open>
  C7 says that every \<open>message\<close> envelope whose destination is registered on an open socket
  is forwarded. The \<open>message\<close> branch builds its log line, which needs the text of
  \<open>data.message\<close>, before it looks the destination up and sends; the \<open>webrtc-signal\<close>
  branch sends first and logs afterwards. So: alice and bob are registered on open sockets,
  and alice sends bob a message whose \<open>message\<close> is the object \<open>{toString: 1}\<close>. The
  template literal throws, the \<open>catch\<close> logs it, and bob is sent nothing beyond his
  confirmation; the same object sent as the \<open>data\<close> of a \<open>webrtc-signal\<close> envelope reaches
  bob.
\<close>

theorem unloggable_message_is_dropped:
  "fst (run [Connection 0, Connection 1,
             Message 0 ''a'' (Inr (register_envelope 100 (JStr ''alice''))),
             Message 1 ''b'' (Inr (register_envelope 101 (JStr ''bob''))),
             Message 0 ''m'' (Inr odd_message)] init) = None \<and>
   readyState (sockets (snd (run [Connection 0, Connection 1,
             Message 0 ''a'' (Inr (register_envelope 100 (JStr ''alice''))),
             Message 1 ''b'' (Inr (register_envelope 101 (JStr ''bob''))),
             Message 0 ''m'' (Inr odd_message)] init)) 1) = OPEN \<and>
   map_of (clients (snd (run [Connection 0, Connection 1,
             Message 0 ''a'' (Inr (register_envelope 100 (JStr ''alice''))),
             Message 1 ''b'' (Inr (register_envelope 101 (JStr ''bob''))),
             Message 0 ''m'' (Inr odd_message)] init))) (JStr ''bob'')
     = Some \<lparr>ws = 1, tailscaleIp = JStr ''N/A'', pingInterval = 1\<rparr> \<and>
   sent (sockets (snd (run [Connection 0, Connection 1,
             Message 0 ''a'' (Inr (register_envelope 100 (JStr ''alice''))),
             Message 1 ''b'' (Inr (register_envelope 101 (JStr ''bob''))),
             Message 0 ''m'' (Inr odd_message)] init)) 1)
     = [[(''type'', JStr ''registered''), (''userId'', JStr ''bob''), (''tailscaleIp'', JStr ''N/A'')]] \<and>
   sent (sockets (snd (run [Connection 0, Connection 1,
             Message 0 ''a'' (Inr (register_envelope 100 (JStr ''alice''))),
             Message 1 ''b'' (Inr (register_envelope 101 (JStr ''bob''))),
             Message 0 ''s'' (Inr odd_signal)] init)) 1)
     = [[(''type'', JStr ''registered''), (''userId'', JStr ''bob''), (''tailscaleIp'', JStr ''N/A'')],
        [(''type'', JStr ''webrtc-signal''), (''from'', JStr ''alice''), (''to'', JStr ''bob''),
         (''data'', JObj 203 [(''toString'', JNum ''1'')])]]"
  by (simp add: run_defs odd_message_def odd_signal_def)

text \<open>
  C8. No exception leaves the \<open>message\<close> callback, whatever the text received. A text that
  \<open>JSON.parse\<close> rejects, or whose value has a \<open>type\<close> other than \<open>register\<close>, \<open>message\<close>
  and \<open>webrtc-signal\<close> (a value without a \<open>type\<close>, or \<open>null\<close>, included), changes
  neither \<open>clients\<close> nor any socket: nothing is sent.
\<close>

theorem undecodable_dropped:
  "fst (on_message w raw parsed s) = None \<and>
   ((case parsed of
       Inl e \<Rightarrow> True
     | Inr data \<Rightarrow> field data ''type'' \<notin> {JStr ''register'', JStr ''message'', JStr ''webrtc-signal''})
    \<longrightarrow> clients (snd (on_message w raw parsed s)) = clients s \<and>
        sockets (snd (on_message w raw parsed s)) = sockets s)"
  by (simp add: on_message_returns dropped)

theorem undecodable_dropped_witness:
  "fst (on_message 0 ''{'' (Inl (SyntaxError ''Unexpected end of JSON input'')) alice_and_bob) = None \<and>
   clients (snd (on_message 0 ''{'' (Inl (SyntaxError ''Unexpected end of JSON input'')) alice_and_bob))
     = clients alice_and_bob \<and>
   sockets (snd (on_message 0 ''{'' (Inl (SyntaxError ''Unexpected end of JSON input'')) alice_and_bob))
     = sockets alice_and_bob \<and>
   clients (snd (on_message 0 ''null'' (Inr JNull) alice_and_bob)) = clients alice_and_bob \<and>
   sockets (snd (on_message 0 ''null'' (Inr JNull) alice_and_bob)) = sockets alice_and_bob"
  using undecodable_dropped [of 0 "''{''" "Inl (SyntaxError ''Unexpected end of JSON input'')" alice_and_bob]
        undecodable_dropped [of 0 "''null''" "Inr JNull" alice_and_bob]
  by simp

subsection \<open>Identity uniqueness\<close>

text \<open>
  C9. After every sequence of events, whatever sockets connect, whatever texts arrive on them
  and whenever they close, fail or are pinged, \<open>clients\<close> holds at most one entry per
  identity, and so at most one entry per identity whose socket is open.
\<close>

theorem identity_unique:
  "distinct (map fst (clients (snd (run evs init)))) \<and>
   length (live_records (snd (run evs init)) x) \<le> 1"
proof -
  have "length (filter (\<lambda>(k, c). k = x \<and> readyState (sockets (snd (run evs init)) (ws c)) = OPEN)
                  (clients (snd (run evs init)))) \<le> 1"
    by (rule at_most_one_entry) (rule unique_keys_run)
  then show ?thesis
    by (simp add: live_records_def unique_keys_run)
qed

subsection \<open>Values without a text form\<close>

text \<open>
  Where the statements above ask for identities and addresses to be loggable, the condition
  holds in every state the server reaches as long as the \<open>register\<close> envelopes it receives
  carry loggable identities and addresses, strings for instance; and then no callback ever
  throws an exception that is not caught.
\<close>

lemma loggable_traffic_is_never_fatal:
  assumes "list_all plain evs"
  shows "fst (run evs init) = None \<and> all_loggable (snd (run evs init))"
  by (rule run_plain [OF assms]) (simp add: all_loggable_def init_def loggable_registry_def)

text \<open>
  Without it the process can end. An object with a property of its own named \<open>toString\<close>
  is accepted as an identity, and the \<open>close\<close> callback, which is outside any \<open>try\<close>, then
  throws when it writes the identity into its log line.
\<close>

lemma unloggable_identity_ends_the_process:
  "fst (run [Connection 0,
             Message 0 ''r'' (Inr (register_envelope 100 (JObj 101 [(''toString'', JNum ''1'')]))),
             Close 0] init)
     = Some (TypeError ''Cannot convert object to primitive value'')"
  by (simp add: run_defs)

end
